theory Spec2Isabelle
  imports Main "HOL-Library.Word" "HOL-Library.Sublist"
begin

section \<open>The sqlite migration driver (database/sqlite/sqlite.go)\<close>

text \<open>
  The driver is a thin layer over a \<open>database/sql\<close> handle. The SQL engine behind the
  handle is not part of the repository, so every driver function takes the engine as a
  parameter: a record of the two operations the driver calls on its handle. Each
  operation receives the engine's state and returns the new one together with its
  result. Go's \<open>error\<close> results are \<open>error option\<close> (\<open>None\<close> is \<open>nil\<close>).
\<close>

subsection \<open>Errors, arguments, the handle\<close>

text \<open>
  \<open>ErrLocked\<close> is \<open>database.ErrLocked\<close>, \<open>ErrNoRows\<close> is \<open>sql.ErrNoRows\<close>,
  \<open>DatabaseError\<close> is \<open>&database.Error{OrigErr: err, Query: []byte(q)}\<close>, and
  \<open>External\<close> stands for any error value made outside the driver (engine, reader,
  operating system), identified by its message.
\<close>

datatype error =
    ErrLocked
  | ErrNoRows
  | External string
  | DatabaseError (OrigErr: error) (Query: string)

text \<open>
  The values the driver binds to statement parameters. Go's \<open>int\<close> is taken as 64 bits
  (the width on the platforms the cgo sqlite binding is built for); the engine stores
  integers as 64-bit signed values.
\<close>

datatype arg = IntArg "64 word" | BoolArg bool

type_synonym stmt = "string \<times> arg list"

type_synonym row = "64 word \<times> bool"

text \<open>
  The engine: \<open>Exec\<close> is \<open>(*sql.DB).Exec(op, args...)\<close> with the result value dropped,
  \<open>QueryRowScan\<close> is \<open>(*sql.DB).QueryRow(query).Scan(&version, &dirty)\<close>.
\<close>

record 'e engine =
  Exec :: "string \<Rightarrow> arg list \<Rightarrow> 'e \<Rightarrow> error option \<times> 'e"
  QueryRowScan :: "string \<Rightarrow> 'e \<Rightarrow> (error + row) \<times> 'e"

text \<open>
  The handle \<open>*sql.DB\<close>: the engine's state behind it, and the statements handed to the
  engine through it so far, oldest first (a history kept for the statements of the
  specification that speak of which statements are issued).
\<close>

record 'e DB =
  conn :: 'e
  issued :: "stmt list"

definition db_Exec ::
  "'e engine \<Rightarrow> string \<Rightarrow> arg list \<Rightarrow> 'e DB \<Rightarrow> error option \<times> 'e DB" where
  "db_Exec E op args d =
     (let (err, c) = Exec E op args (conn d)
      in (err, d\<lparr>conn := c, issued := issued d @ [(op, args)]\<rparr>))"

definition db_QueryRowScan ::
  "'e engine \<Rightarrow> string \<Rightarrow> 'e DB \<Rightarrow> (error + row) \<times> 'e DB" where
  "db_QueryRowScan E query d =
     (let (r, c) = QueryRowScan E query (conn d)
      in (r, d\<lparr>conn := c, issued := issued d @ [(query, [])]\<rparr>))"

subsection \<open>Library functions the driver calls\<close>

text \<open>
  \<open>strings.Replace(s, old, new, -1)\<close>: every non-overlapping occurrence of \<open>old\<close> in
  \<open>s\<close>, scanning from the left, is replaced by \<open>new\<close>; the replacement text is not
  scanned again. For an empty \<open>old\<close> Go inserts \<open>new\<close> before every character and at
  the end (written here for single-byte characters; the driver's only call passes the
  non-empty placeholder).
\<close>

fun replace_from :: "string \<Rightarrow> string \<Rightarrow> string \<Rightarrow> string" where
  "replace_from old new [] = []"
| "replace_from old new (c # cs) =
     (if prefix old (c # cs)
      then new @ replace_from old new (drop (length old - 1) cs)
      else c # replace_from old new cs)"

definition strings_Replace :: "string \<Rightarrow> string \<Rightarrow> string \<Rightarrow> string" where
  "strings_Replace s old new =
     (if old = [] then new @ concat (map (\<lambda>c. c # new) s) else replace_from old new s)"

text \<open>\<open>fmt.Sprintf("%d", n)\<close> for an \<open>int64\<close>: decimal digits, a minus sign when negative.\<close>

fun digits :: "nat \<Rightarrow> string" where
  "digits n =
     (if n < 10 then [''0123456789'' ! n]
      else digits (n div 10) @ [''0123456789'' ! (n mod 10)])"

declare digits.simps [simp del]

definition Sprintf_d :: "64 word \<Rightarrow> string" where
  "Sprintf_d w =
     (if sint w < 0 then CHR ''-'' # digits (nat (- sint w)) else digits (nat (sint w)))"

text \<open>\<open>fmt.Sprintf("txn_%d", n)\<close>.\<close>

definition Sprintf_txn_d :: "64 word \<Rightarrow> string" where
  "Sprintf_txn_d n = ''txn_'' @ Sprintf_d n"

subsection \<open>The driver\<close>

text \<open>The struct \<open>Sqlite\<close>, field by field.\<close>

record 'e Sqlite =
  db :: "'e DB"
  dbPath :: string
  migrationsTable :: string
  locked :: bool
  txid :: "64 word"

definition DefaultMigrationsTable :: string where
  "DefaultMigrationsTable = ''schema_migrations''"

definition NilVersion :: "64 word" where
  "NilVersion = - 1"

definition placeholder :: string where
  "placeholder = ''${MIGRATIONS_TABLE}''"

text \<open>
  The struct literal of \<open>Open\<close> (lines 47-51): \<open>locked\<close> and \<open>txid\<close> take Go's zero
  values.
\<close>

definition new_Sqlite :: "'e \<Rightarrow> string \<Rightarrow> string \<Rightarrow> 'e Sqlite" where
  "new_Sqlite c path migTbl =
     \<lparr>db = \<lparr>conn = c, issued = []\<rparr>, dbPath = path, migrationsTable = migTbl,
      locked = False, txid = 0\<rparr>"

text \<open>\<open>exec\<close> (lines 119-130): substitute the placeholder, execute, wrap the error.\<close>

definition exec ::
  "'e engine \<Rightarrow> string \<Rightarrow> arg list \<Rightarrow> 'e Sqlite \<Rightarrow> error option \<times> 'e Sqlite" where
  "exec E op args s =
     (let op' = strings_Replace op placeholder (migrationsTable s);
          (err, d) = db_Exec E op' args (db s)
      in (case err of
            Some e \<Rightarrow> (Some (DatabaseError e op'), s\<lparr>db := d\<rparr>)
          | None \<Rightarrow> (None, s\<lparr>db := d\<rparr>)))"

text \<open>\<open>Lock\<close> (lines 105-117). The flag is set before the two statements run.\<close>

definition Lock :: "'e engine \<Rightarrow> 'e Sqlite \<Rightarrow> error option \<times> 'e Sqlite" where
  "Lock E s =
     (if locked s then (Some ErrLocked, s)
      else
        (let s1 = s\<lparr>locked := True\<rparr>;
             (err, s2) = exec E ''PRAGMA locking_mode = EXCLUSIVE'' [] s1
         in (case err of
               Some e \<Rightarrow> (Some e, s2)
             | None \<Rightarrow>
                 (let (err', s3) = exec E ''BEGIN EXCLUSIVE'' [] s2
                  in (case err' of
                        Some e \<Rightarrow> (Some e, s3)
                      | None \<Rightarrow> (None, s3))))))"

text \<open>\<open>Unlock\<close> (lines 134-142). No field is assigned.\<close>

definition Unlock :: "'e engine \<Rightarrow> 'e Sqlite \<Rightarrow> error option \<times> 'e Sqlite" where
  "Unlock E s =
     (if \<not> locked s then (None, s)
      else
        (let (err, s1) = exec E ''COMMIT'' [] s
         in (case err of
               Some e \<Rightarrow> (Some e, s1)
             | None \<Rightarrow> (None, s1))))"

text \<open>
  \<open>Run\<close> (lines 145-151). The reader is given by what \<open>ioutil.ReadAll\<close> makes of it:
  an error, or all of its bytes.
\<close>

definition Run ::
  "'e engine \<Rightarrow> error + string \<Rightarrow> 'e Sqlite \<Rightarrow> error option \<times> 'e Sqlite" where
  "Run E migration s =
     (case migration of
        Inl err \<Rightarrow> (Some err, s)
      | Inr buf \<Rightarrow> exec E buf [] s)"

text \<open>
  \<open>transactionally\<close> (lines 172-195). The thunk is a closure over the driver, so it
  maps the driver's state to its error and the new state. \<open>deferred\<close> is the deferred
  function: it runs at every return, and its own result is dropped.
\<close>

definition deferred :: "'e engine \<Rightarrow> string \<Rightarrow> bool \<Rightarrow> 'e Sqlite \<Rightarrow> 'e Sqlite" where
  "deferred E txname success s =
     (if \<not> success then snd (exec E (''ROLLBACK TO '' @ txname) [] s) else s)"

definition transactionally ::
  "'e engine \<Rightarrow> ('e Sqlite \<Rightarrow> error option \<times> 'e Sqlite) \<Rightarrow> 'e Sqlite
     \<Rightarrow> error option \<times> 'e Sqlite" where
  "transactionally E thunk s =
     (let s0 = s\<lparr>txid := txid s + 1\<rparr>;
          txname = Sprintf_txn_d (txid s0);
          (err, s1) = exec E (''SAVEPOINT '' @ txname) [] s0
      in (case err of
            Some e \<Rightarrow> (Some e, deferred E txname False s1)
          | None \<Rightarrow>
              (let (err', s2) = thunk s1
               in (case err' of
                     Some e \<Rightarrow> (Some e, deferred E txname False s2)
                   | None \<Rightarrow>
                       (let s3 = snd (exec E (''RELEASE '' @ txname) [] s2)
                        in (None, deferred E txname True s3))))))"

text \<open>\<open>SetVersion\<close> (lines 156-170) and the statement texts of its closure.\<close>

definition delete_stmt :: string where
  "delete_stmt = ''DELETE FROM ${MIGRATIONS_TABLE}''"

definition insert_stmt :: string where
  "insert_stmt =
     ''INSERT INTO ${MIGRATIONS_TABLE} (version, dirty) '' @ [CHR 0x0A, CHR 0x09, CHR 0x09, CHR 0x09]
       @ ''               VALUES ($1, $2)''"

definition SetVersion_thunk ::
  "'e engine \<Rightarrow> 64 word \<Rightarrow> bool \<Rightarrow> 'e Sqlite \<Rightarrow> error option \<times> 'e Sqlite" where
  "SetVersion_thunk E version dirty s =
     (let (err, s1) = exec E delete_stmt [] s
      in (case err of
            Some e \<Rightarrow> (Some e, s1)
          | None \<Rightarrow>
              (if 0 \<le> sint version
               then exec E insert_stmt [IntArg version, BoolArg dirty] s1
               else (None, s1))))"

definition SetVersion ::
  "'e engine \<Rightarrow> 64 word \<Rightarrow> bool \<Rightarrow> 'e Sqlite \<Rightarrow> error option \<times> 'e Sqlite" where
  "SetVersion E version dirty s = transactionally E (SetVersion_thunk E version dirty) s"

text \<open>\<open>Version\<close> (lines 200-215); the result is \<open>(version, dirty, err)\<close>.\<close>

definition select_query :: "string \<Rightarrow> string" where
  "select_query tbl = ''SELECT version, dirty FROM '' @ [CHR 0x22] @ tbl @ [CHR 0x22] @ '' LIMIT 1''"

definition Version ::
  "'e engine \<Rightarrow> 'e Sqlite \<Rightarrow> (64 word \<times> bool \<times> error option) \<times> 'e Sqlite" where
  "Version E s =
     (let query = select_query (migrationsTable s);
          (r, d) = db_QueryRowScan E query (db s);
          s1 = s\<lparr>db := d\<rparr>
      in (case r of
            Inl err \<Rightarrow>
              (if err = ErrNoRows then ((NilVersion, False, None), s1)
               else ((0, False, Some (DatabaseError err query)), s1))
          | Inr (version, dirty) \<Rightarrow> ((version, dirty, None), s1)))"

text \<open>
  \<open>Drop\<close> (lines 218-220). \<open>os.Remove\<close> acts on the file system, which is outside the
  driver: it is a parameter \<open>rm\<close> that maps a path and the file system to its error and
  the new file system.
\<close>

definition Drop ::
  "(string \<Rightarrow> 'fs \<Rightarrow> error option \<times> 'fs) \<Rightarrow> 'e Sqlite \<Rightarrow> 'fs
     \<Rightarrow> error option \<times> 'e Sqlite \<times> 'fs" where
  "Drop rm s fs = (let (err, fs') = rm (dbPath s) fs in (err, s, fs'))"

subsection \<open>\<open>Run\<close> as the specification words it\<close>

text \<open>
  The specification has \<open>Run\<close> execute the script "as a single statement batch via
  \<open>transactionally\<close>". This second definition follows those words, for comparison with
  \<open>Run\<close> above, which follows the source.
\<close>

definition Run_via_savepoint ::
  "'e engine \<Rightarrow> error + string \<Rightarrow> 'e Sqlite \<Rightarrow> error option \<times> 'e Sqlite" where
  "Run_via_savepoint E migration s =
     (case migration of
        Inl err \<Rightarrow> (Some err, s)
      | Inr buf \<Rightarrow> transactionally E (exec E buf []) s)"

subsection \<open>What the driver expects of the engine\<close>

text \<open>
  The texts that reach the engine for the two statements of \<open>SetVersion\<close> once the
  placeholder is replaced by the table name \<open>tbl\<close>.
\<close>

definition delete_text :: "string \<Rightarrow> string" where
  "delete_text tbl = ''DELETE FROM '' @ tbl"

definition insert_text :: "string \<Rightarrow> string" where
  "insert_text tbl =
     ''INSERT INTO '' @ tbl @ '' (version, dirty) '' @ [CHR 0x0A, CHR 0x09, CHR 0x09, CHR 0x09]
       @ ''               VALUES ($1, $2)''"

text \<open>
  What \<open>SetVersion\<close> and \<open>Version\<close> rely on. \<open>rowsf\<close> reads the rows of the bookkeeping
  table \<open>tbl\<close> off the engine's state, oldest first. The engine is taken to treat the
  driver's statements on \<open>tbl\<close> as SQL does: a successful \<open>DELETE FROM tbl\<close> leaves no
  row; a successful \<open>INSERT\<close> with parameters \<open>(v, d)\<close> adds that row; \<open>RELEASE\<close> of a
  savepoint named by the driver leaves the rows as they are, whether it succeeds or
  not; and the \<open>SELECT ... LIMIT 1\<close> of \<open>Version\<close> scans the first row, or yields
  \<open>sql.ErrNoRows\<close> when there is none. The unquoted name of the first two statements and
  the quoted name of the query are taken to denote the same table.
\<close>

definition bookkeeping_engine :: "'e engine \<Rightarrow> ('e \<Rightarrow> row list) \<Rightarrow> string \<Rightarrow> bool" where
  "bookkeeping_engine E rowsf tbl \<longleftrightarrow>
     (\<forall>c c'. Exec E (delete_text tbl) [] c = (None, c') \<longrightarrow> rowsf c' = []) \<and>
     (\<forall>v d c c'. Exec E (insert_text tbl) [IntArg v, BoolArg d] c = (None, c')
        \<longrightarrow> rowsf c' = rowsf c @ [(v, d)]) \<and>
     (\<forall>k c. rowsf (snd (Exec E (''RELEASE '' @ Sprintf_txn_d k) [] c)) = rowsf c) \<and>
     (\<forall>c. fst (QueryRowScan E (select_query tbl) c) =
        (case rowsf c of [] \<Rightarrow> Inl ErrNoRows | r # rs \<Rightarrow> Inr r))"

subsection \<open>A reference engine\<close>

text \<open>
  A small in-memory engine on which the driver can be run: one bookkeeping table named
  \<open>schema_migrations\<close>, a list of user tables, one transaction, a stack of savepoints
  (innermost first, each holding the data as it was when the savepoint was made), and a
  flag \<open>busy\<close> that says another connection holds the database file. A text is split at
  semicolons and its statements run in order until one fails; what the earlier ones did
  stays, as in SQLite, where each statement of a batch is prepared and stepped on its
  own.
\<close>

record mem =
  rows :: "row list"
  tables :: "string list"
  in_tx :: bool
  busy :: bool
  savepoints :: "(string \<times> row list \<times> string list) list"

fun split_acc :: "char \<Rightarrow> string \<Rightarrow> string \<Rightarrow> string list" where
  "split_acc sep acc [] = [rev acc]"
| "split_acc sep acc (c # cs) =
     (if c = sep then rev acc # split_acc sep [] cs else split_acc sep (c # acc) cs)"

fun find_savepoint ::
  "string \<Rightarrow> (string \<times> row list \<times> string list) list
     \<Rightarrow> (string \<times> row list \<times> string list) list" where
  "find_savepoint n [] = []"
| "find_savepoint n (sp # sps) = (if fst sp = n then sp # sps else find_savepoint n sps)"

definition mem_stmt :: "string \<Rightarrow> arg list \<Rightarrow> mem \<Rightarrow> error option \<times> mem" where
  "mem_stmt op args m =
     (if op = [] then (None, m)
      else if op = ''PRAGMA locking_mode = EXCLUSIVE'' then (None, m)
      else if op = ''BEGIN EXCLUSIVE'' then
        (if busy m then (Some (External ''database is locked''), m)
         else if in_tx m
         then (Some (External ''cannot start a transaction within a transaction''), m)
         else (None, m\<lparr>in_tx := True\<rparr>))
      else if op = ''COMMIT'' then
        (if in_tx m then (None, m\<lparr>in_tx := False, savepoints := []\<rparr>)
         else (Some (External ''cannot commit - no transaction is active''), m))
      else if prefix ''SAVEPOINT '' op then
        (None, m\<lparr>savepoints := (drop 10 op, rows m, tables m) # savepoints m\<rparr>)
      else if prefix ''ROLLBACK TO '' op then
        (case find_savepoint (drop 12 op) (savepoints m) of
           [] \<Rightarrow> (Some (External ''no such savepoint''), m)
         | (n, r, t) # sps \<Rightarrow>
             (None, m\<lparr>rows := r, tables := t, savepoints := (n, r, t) # sps\<rparr>))
      else if prefix ''RELEASE '' op then
        (case find_savepoint (drop 8 op) (savepoints m) of
           [] \<Rightarrow> (Some (External ''no such savepoint''), m)
         | sp # sps \<Rightarrow> (None, m\<lparr>savepoints := sps\<rparr>))
      else if op = ''DELETE FROM schema_migrations'' then (None, m\<lparr>rows := []\<rparr>)
      else if prefix ''INSERT INTO schema_migrations (version, dirty) '' op then
        (case args of
           [IntArg v, BoolArg d] \<Rightarrow>
             (if List.member (map fst (rows m)) v
              then (Some (External ''UNIQUE constraint failed''), m)
              else (None, m\<lparr>rows := rows m @ [(v, d)]\<rparr>))
         | _ \<Rightarrow> (Some (External ''wrong parameters''), m))
      else if prefix ''CREATE TABLE '' op then
        (if List.member (tables m) (drop 13 op)
         then (Some (External ''table already exists''), m)
         else (None, m\<lparr>tables := tables m @ [drop 13 op]\<rparr>))
      else (Some (External ''syntax error''), m))"

fun mem_batch :: "string list \<Rightarrow> arg list \<Rightarrow> mem \<Rightarrow> error option \<times> mem" where
  "mem_batch [] args m = (None, m)"
| "mem_batch (q # qs) args m =
     (case mem_stmt q args m of
        (Some e, m') \<Rightarrow> (Some e, m')
      | (None, m') \<Rightarrow> mem_batch qs args m')"

definition mem_Exec :: "string \<Rightarrow> arg list \<Rightarrow> mem \<Rightarrow> error option \<times> mem" where
  "mem_Exec op args m = mem_batch (split_acc CHR '';'' [] op) args m"

definition mem_QueryRowScan :: "string \<Rightarrow> mem \<Rightarrow> (error + row) \<times> mem" where
  "mem_QueryRowScan query m =
     (if query = select_query ''schema_migrations''
      then (case rows m of [] \<Rightarrow> (Inl ErrNoRows, m) | r # rs \<Rightarrow> (Inr r, m))
      else (Inl (External ''no such table''), m))"

definition mem_engine :: "mem engine" where
  "mem_engine = \<lparr>Exec = mem_Exec, QueryRowScan = mem_QueryRowScan\<rparr>"

definition mem_empty :: mem where
  "mem_empty = \<lparr>rows = [], tables = [], in_tx = False, busy = False, savepoints = []\<rparr>"

definition fresh :: "mem Sqlite" where
  "fresh = new_Sqlite mem_empty ''/tmp/test.db'' DefaultMigrationsTable"

text \<open>
  Drivers on the reference engine: \<open>fresh\<close> as \<open>Open\<close> leaves it on an empty database,
  \<open>contended\<close> the same while another connection holds the file, \<open>held\<close> after a
  successful \<open>Lock\<close>, \<open>saved\<close> after the first savepoint inside the lock.
\<close>

definition contended :: "mem Sqlite" where
  "contended =
     new_Sqlite (mem_empty\<lparr>busy := True\<rparr>) ''/tmp/test.db'' DefaultMigrationsTable"

definition held :: "mem Sqlite" where
  "held = snd (Lock mem_engine fresh)"

definition saved :: "mem Sqlite" where
  "saved = snd (exec mem_engine ''SAVEPOINT txn_1'' [] (held\<lparr>txid := 1\<rparr>))"

text \<open>
  Two closures for \<open>transactionally\<close>: both release the savepoint themselves, so that the
  driver's own statement on it fails; the first then fails on a statement the engine
  rejects, the second succeeds.
\<close>

definition release_then_fail :: "mem Sqlite \<Rightarrow> error option \<times> mem Sqlite" where
  "release_then_fail s =
     exec mem_engine ''BOGUS'' [] (snd (exec mem_engine ''RELEASE txn_1'' [] s))"

definition release_early :: "mem Sqlite \<Rightarrow> error option \<times> mem Sqlite" where
  "release_early s = exec mem_engine ''RELEASE txn_1'' [] s"

text \<open>
  Two scripts: one whose second statement the engine rejects, one that contains the
  placeholder token.
\<close>

definition two_statements :: string where
  "two_statements = ''CREATE TABLE t(x int);BOGUS''"

definition templated :: string where
  "templated = ''DROP TABLE ${MIGRATIONS_TABLE}''"

text \<open>The driver after \<open>SetVersion(5, true)\<close> inside the lock, and after \<open>SetVersion(-1, true)\<close> on that.\<close>

definition at5 :: "mem Sqlite" where
  "at5 = snd (SetVersion mem_engine 5 True held)"

definition at_nil :: "mem Sqlite" where
  "at_nil = snd (SetVersion mem_engine (- 1) True at5)"

section \<open>Properties\<close>

lemmas driver_defs = Lock_def Unlock_def Run_def exec_def db_Exec_def db_QueryRowScan_def
  strings_Replace_def placeholder_def new_Sqlite_def DefaultMigrationsTable_def
  transactionally_def deferred_def SetVersion_def SetVersion_thunk_def Version_def
  delete_stmt_def insert_stmt_def select_query_def NilVersion_def Sprintf_d_def

lemmas mem_defs = mem_engine_def mem_Exec_def mem_QueryRowScan_def mem_stmt_def
  mem_empty_def fresh_def

lemmas run_defs = held_def saved_def contended_def release_then_fail_def release_early_def
  driver_defs mem_defs Let_def

subsection \<open>What \<open>exec\<close> changes\<close>

lemma exec_fields [simp]:
  "locked (snd (exec E op args s)) = locked s"
  "txid (snd (exec E op args s)) = txid s"
  "migrationsTable (snd (exec E op args s)) = migrationsTable s"
  "dbPath (snd (exec E op args s)) = dbPath s"
  by (simp_all add: exec_def Let_def split: prod.splits option.splits)

lemma exec_issued:
  "issued (db (snd (exec E op args s))) =
     issued (db s) @ [(strings_Replace op placeholder (migrationsTable s), args)]"
  by (simp add: exec_def db_Exec_def Let_def split: prod.splits option.splits)

lemma exec_conn:
  "conn (db (snd (exec E op args s))) =
     snd (Exec E (strings_Replace op placeholder (migrationsTable s)) args (conn (db s)))"
  by (simp add: exec_def db_Exec_def Let_def split: prod.splits option.splits)

lemma exec_result:
  "fst (exec E op args s) =
     map_option (\<lambda>e. DatabaseError e (strings_Replace op placeholder (migrationsTable s)))
       (fst (Exec E (strings_Replace op placeholder (migrationsTable s)) args (conn (db s))))"
  by (simp add: exec_def db_Exec_def Let_def split: prod.splits option.splits)

lemma exec_keeps:
  assumes "exec E op args s = (err, s')"
  shows "locked s' = locked s" and "txid s' = txid s"
    and "migrationsTable s' = migrationsTable s" and "dbPath s' = dbPath s"
  using exec_fields [of E op args s] assms by simp_all

lemma Lock_sets_locked: "locked (snd (Lock E s))"
  by (auto simp: Lock_def Let_def exec_keeps(1) split: prod.splits option.splits)

lemma Unlock_keeps_locked: "locked (snd (Unlock E s)) = locked s"
  by (auto simp: Unlock_def Let_def exec_keeps(1) split: prod.splits option.splits)

subsection \<open>The placeholder substitution and the savepoint names\<close>

lemma replace_from_absent:
  "old \<noteq> [] \<Longrightarrow> \<not> sublist old s \<Longrightarrow> replace_from old new s = s"
proof (induction s)
  case Nil
  show ?case by simp
next
  case (Cons c cs)
  from Cons.prems(2) have "\<not> prefix old (c # cs)" and "\<not> sublist old cs"
    by (auto simp: sublist_Cons_right)
  with Cons.IH Cons.prems(1) show ?case by simp
qed

lemma strings_Replace_absent:
  "\<not> sublist placeholder s \<Longrightarrow> strings_Replace s placeholder new = s"
  by (simp add: strings_Replace_def replace_from_absent) (simp add: placeholder_def)

lemma sublist_set: "sublist xs ys \<Longrightarrow> set xs \<subseteq> set ys"
  by (auto simp: sublist_def)

lemma strings_Replace_no_dollar:
  "CHR ''$'' \<notin> set s \<Longrightarrow> strings_Replace s placeholder new = s"
proof (rule strings_Replace_absent)
  assume a: "CHR ''$'' \<notin> set s"
  show "\<not> sublist placeholder s"
  proof
    assume "sublist placeholder s"
    then have "set placeholder \<subseteq> set s" by (rule sublist_set)
    then have "CHR ''$'' \<in> set s" by (simp add: placeholder_def)
    with a show False by simp
  qed
qed

lemma digits_chars: "set (digits n) \<subseteq> set ''0123456789''"
proof (induction n rule: digits.induct)
  case (1 n)
  have d: "''0123456789'' ! k \<in> set ''0123456789''" if "k < 10" for k
    using that by (intro nth_mem) simp
  show ?case
  proof (cases "n < 10")
    case True
    then show ?thesis using d [of n] by (subst digits.simps) simp
  next
    case False
    have "n mod 10 < 10" by simp
    from d [OF this] 1 False show ?thesis by (subst digits.simps) simp
  qed
qed

lemma digits_avoid: "c \<notin> set ''0123456789'' \<Longrightarrow> c \<notin> set (digits n)"
  using digits_chars [of n] by blast

lemma txn_no_dollar: "CHR ''$'' \<notin> set (Sprintf_txn_d k)"
proof -
  have "CHR ''$'' \<notin> set (digits m)" for m
    by (rule digits_avoid) simp
  then show ?thesis by (simp add: Sprintf_txn_d_def Sprintf_d_def)
qed

lemma txn_no_semicolon: "CHR '';'' \<notin> set (Sprintf_txn_d k)"
proof -
  have "CHR '';'' \<notin> set (digits m)" for m
    by (rule digits_avoid) simp
  then show ?thesis by (simp add: Sprintf_txn_d_def Sprintf_d_def)
qed

lemma savepoint_stmts_plain:
  "strings_Replace (''SAVEPOINT '' @ Sprintf_txn_d k) placeholder new = ''SAVEPOINT '' @ Sprintf_txn_d k"
  "strings_Replace (''ROLLBACK TO '' @ Sprintf_txn_d k) placeholder new = ''ROLLBACK TO '' @ Sprintf_txn_d k"
  "strings_Replace (''RELEASE '' @ Sprintf_txn_d k) placeholder new = ''RELEASE '' @ Sprintf_txn_d k"
  using txn_no_dollar [of k] by (simp_all add: strings_Replace_no_dollar)

lemma exec_txn_issued:
  "issued (db (snd (exec E (''SAVEPOINT '' @ Sprintf_txn_d k) [] s))) =
     issued (db s) @ [(''SAVEPOINT '' @ Sprintf_txn_d k, [])]"
  "issued (db (snd (exec E (''ROLLBACK TO '' @ Sprintf_txn_d k) [] s))) =
     issued (db s) @ [(''ROLLBACK TO '' @ Sprintf_txn_d k, [])]"
  "issued (db (snd (exec E (''RELEASE '' @ Sprintf_txn_d k) [] s))) =
     issued (db s) @ [(''RELEASE '' @ Sprintf_txn_d k, [])]"
  unfolding exec_issued savepoint_stmts_plain by (rule refl)+

lemma digits_1: "digits (Suc 0) = ''1''"
  by (simp add: digits.simps)

lemma txn_1: "Sprintf_txn_d 1 = ''txn_1''"
  by (simp add: Sprintf_txn_d_def Sprintf_d_def digits_1)

lemma held_txid: "txid held = 0"
  by (simp add: run_defs)

lemma held_savepoint:
  "exec mem_engine (''SAVEPOINT '' @ Sprintf_txn_d (txid held + 1)) []
     (held\<lparr>txid := txid held + 1\<rparr>) = (None, saved)"
  unfolding held_txid by (simp add: txn_1) (simp add: run_defs)

subsection \<open>The statements of \<open>SetVersion\<close> and \<open>Version\<close>\<close>

lemma delete_stmt_replaced: "strings_Replace delete_stmt placeholder tbl = delete_text tbl"
  by (simp add: strings_Replace_def delete_stmt_def placeholder_def delete_text_def)

lemma insert_stmt_replaced: "strings_Replace insert_stmt placeholder tbl = insert_text tbl"
  by (simp add: strings_Replace_def insert_stmt_def placeholder_def insert_text_def)

lemma exec_ok:
  assumes "exec E op args s = (None, s')"
  shows "Exec E (strings_Replace op placeholder (migrationsTable s)) args (conn (db s))
           = (None, conn (db s'))"
    and "issued (db s') = issued (db s) @ [(strings_Replace op placeholder (migrationsTable s), args)]"
    and "migrationsTable s' = migrationsTable s"
  using assms
  by (auto simp: exec_def db_Exec_def Let_def split: prod.splits option.splits)

lemma transactionally_ok:
  assumes "transactionally E thunk s = (None, s')"
  obtains s1 s2 where
    "exec E (''SAVEPOINT '' @ Sprintf_txn_d (txid s + 1)) [] (s\<lparr>txid := txid s + 1\<rparr>) = (None, s1)"
    "thunk s1 = (None, s2)"
    "s' = snd (exec E (''RELEASE '' @ Sprintf_txn_d (txid s + 1)) [] s2)"
  using assms
  by (auto simp: transactionally_def deferred_def Let_def split: prod.splits option.splits)

lemma SetVersion_thunk_ok:
  assumes ok: "SetVersion_thunk E version dirty s = (None, s')"
  obtains sa where
    "exec E delete_stmt [] s = (None, sa)"
    "0 \<le> sint version \<Longrightarrow> exec E insert_stmt [IntArg version, BoolArg dirty] sa = (None, s')"
    "\<not> 0 \<le> sint version \<Longrightarrow> s' = sa"
proof -
  obtain e1 sa where d: "exec E delete_stmt [] s = (e1, sa)"
    by (cases "exec E delete_stmt [] s")
  have e1: "e1 = None"
    using ok unfolding SetVersion_thunk_def d by (cases e1) simp_all
  have r: "(if 0 \<le> sint version
            then exec E insert_stmt [IntArg version, BoolArg dirty] sa else (None, sa)) = (None, s')"
    using ok unfolding SetVersion_thunk_def d e1 by simp
  show thesis
  proof (rule that [of sa])
    show "exec E delete_stmt [] s = (None, sa)" using d e1 by simp
    show "exec E insert_stmt [IntArg version, BoolArg dirty] sa = (None, s')"
      if "0 \<le> sint version" using r that by (simp only: if_True)
    show "s' = sa" if "\<not> 0 \<le> sint version" using r that by (simp only: if_False prod.inject)
  qed
qed

lemma SetVersion_effect:
  assumes eng: "bookkeeping_engine E rowsf (migrationsTable s)"
      and ok: "SetVersion E version dirty s = (None, s')"
  shows "rowsf (conn (db s')) = (if 0 \<le> sint version then [(version, dirty)] else []) \<and>
         migrationsTable s' = migrationsTable s \<and>
         issued (db s') =
           issued (db s)
           @ [(''SAVEPOINT '' @ Sprintf_txn_d (txid s + 1), []),
              (delete_text (migrationsTable s), [])]
           @ (if 0 \<le> sint version
              then [(insert_text (migrationsTable s), [IntArg version, BoolArg dirty])] else [])
           @ [(''RELEASE '' @ Sprintf_txn_d (txid s + 1), [])]"
proof -
  let ?n = "Sprintf_txn_d (txid s + 1)"
  let ?t = "migrationsTable s"
  from ok obtain s1 s2 where
    sp: "exec E (''SAVEPOINT '' @ ?n) [] (s\<lparr>txid := txid s + 1\<rparr>) = (None, s1)" and
    th: "SetVersion_thunk E version dirty s1 = (None, s2)" and
    s': "s' = snd (exec E (''RELEASE '' @ ?n) [] s2)"
    unfolding SetVersion_def by (rule transactionally_ok)
  from th obtain sa where
    del: "exec E delete_stmt [] s1 = (None, sa)" and
    ins': "0 \<le> sint version \<longrightarrow>
             exec E insert_stmt [IntArg version, BoolArg dirty] sa = (None, s2)" and
    noins': "\<not> 0 \<le> sint version \<longrightarrow> s2 = sa"
    by (rule SetVersion_thunk_ok) blast
  note ins = ins' [rule_format] and noins = noins' [rule_format]
  have t1: "migrationsTable s1 = ?t"
    using exec_ok(3) [OF sp] by simp
  have ta: "migrationsTable sa = ?t"
    using exec_ok(3) [OF del] t1 by simp
  have i1: "issued (db s1) = issued (db s) @ [(''SAVEPOINT '' @ ?n, [])]"
    using exec_txn_issued(1) [of E "txid s + 1" "s\<lparr>txid := txid s + 1\<rparr>"] unfolding sp by simp
  have ia: "issued (db sa) = issued (db s1) @ [(delete_text ?t, [])]"
    using exec_ok(2) [OF del] unfolding t1 delete_stmt_replaced .
  have ra: "rowsf (conn (db sa)) = []"
  proof -
    have "Exec E (delete_text ?t) [] (conn (db s1)) = (None, conn (db sa))"
      using exec_ok(1) [OF del] unfolding t1 delete_stmt_replaced .
    with eng show ?thesis unfolding bookkeeping_engine_def by blast
  qed
  have r2: "rowsf (conn (db s2)) = (if 0 \<le> sint version then [(version, dirty)] else [])"
   and i2: "issued (db s2) = issued (db sa) @
              (if 0 \<le> sint version
               then [(insert_text ?t, [IntArg version, BoolArg dirty])] else [])"
  proof -
    show "rowsf (conn (db s2)) = (if 0 \<le> sint version then [(version, dirty)] else [])"
    proof (cases "0 \<le> sint version")
      case True
      have "Exec E (insert_text ?t) [IntArg version, BoolArg dirty] (conn (db sa))
              = (None, conn (db s2))"
        using exec_ok(1) [OF ins [OF True]] unfolding ta insert_stmt_replaced .
      with eng have "rowsf (conn (db s2)) = rowsf (conn (db sa)) @ [(version, dirty)]"
        unfolding bookkeeping_engine_def by blast
      with ra True show ?thesis by simp
    next
      case False
      with noins ra show ?thesis by simp
    qed
    show "issued (db s2) = issued (db sa) @
              (if 0 \<le> sint version
               then [(insert_text ?t, [IntArg version, BoolArg dirty])] else [])"
    proof (cases "0 \<le> sint version")
      case True
      have "issued (db s2) = issued (db sa) @ [(insert_text ?t, [IntArg version, BoolArg dirty])]"
        using exec_ok(2) [OF ins [OF True]] unfolding ta insert_stmt_replaced .
      with True show ?thesis by simp
    next
      case False
      with noins show ?thesis by simp
    qed
  qed
  have r': "rowsf (conn (db s')) = rowsf (conn (db s2))"
  proof -
    have "conn (db s') = snd (Exec E (''RELEASE '' @ ?n) [] (conn (db s2)))"
      unfolding s' exec_conn savepoint_stmts_plain by (rule refl)
    with eng show ?thesis unfolding bookkeeping_engine_def by simp
  qed
  have i': "issued (db s') = issued (db s2) @ [(''RELEASE '' @ ?n, [])]"
    unfolding s' by (rule exec_txn_issued(3))
  have rows: "rowsf (conn (db s')) = (if 0 \<le> sint version then [(version, dirty)] else [])"
    using r' r2 by simp
  have t2: "migrationsTable s2 = ?t"
    using ta noins exec_ok(3) [OF ins] by (cases "0 \<le> sint version") simp_all
  have tbl: "migrationsTable s' = ?t"
    unfolding s' using t2 by simp
  have iss: "issued (db s') =
           issued (db s)
           @ [(''SAVEPOINT '' @ ?n, []), (delete_text ?t, [])]
           @ (if 0 \<le> sint version
              then [(insert_text ?t, [IntArg version, BoolArg dirty])] else [])
           @ [(''RELEASE '' @ ?n, [])]"
    unfolding i' i2 ia i1 by simp
  show ?thesis by (intro conjI rows tbl iss)
qed

lemma Version_rows:
  assumes eng: "bookkeeping_engine E rowsf (migrationsTable s)"
  shows "fst (Version E s) =
           (case rowsf (conn (db s)) of
              [] \<Rightarrow> (NilVersion, False, None)
            | r # rs \<Rightarrow> (fst r, snd r, None))"
proof -
  from eng have q: "fst (QueryRowScan E (select_query (migrationsTable s)) (conn (db s))) =
      (case rowsf (conn (db s)) of [] \<Rightarrow> Inl ErrNoRows | r # rs \<Rightarrow> Inr r)"
    unfolding bookkeeping_engine_def by blast
  obtain r c where qr: "QueryRowScan E (select_query (migrationsTable s)) (conn (db s)) = (r, c)"
    by (cases "QueryRowScan E (select_query (migrationsTable s)) (conn (db s))")
  show ?thesis
    using q unfolding qr
    by (cases "rowsf (conn (db s))")
       (simp_all add: Version_def db_QueryRowScan_def qr Let_def split: prod.splits)
qed

subsection \<open>The reference engine meets the expectations\<close>

lemma split_acc_absent: "sep \<notin> set s \<Longrightarrow> split_acc sep acc s = [rev acc @ s]"
  by (induction s arbitrary: acc) auto

lemma mem_stmt_release_rows: "rows (snd (mem_stmt (''RELEASE '' @ n) args c)) = rows c"
  by (simp add: mem_stmt_def split: list.splits)

lemma mem_Exec_release_rows:
  "rows (snd (mem_Exec (''RELEASE '' @ Sprintf_txn_d k) [] c)) = rows c"
proof -
  have "CHR '';'' \<notin> set (''RELEASE '' @ Sprintf_txn_d k)"
    using txn_no_semicolon [of k] by simp
  then have "split_acc CHR '';'' [] (''RELEASE '' @ Sprintf_txn_d k) = [''RELEASE '' @ Sprintf_txn_d k]"
    using split_acc_absent [of "CHR '';''" "''RELEASE '' @ Sprintf_txn_d k" "[]"] by simp
  then have "mem_Exec (''RELEASE '' @ Sprintf_txn_d k) [] c =
               mem_batch [''RELEASE '' @ Sprintf_txn_d k] [] c"
    unfolding mem_Exec_def by (rule arg_cong [where f = "\<lambda>x. mem_batch x [] c"])
  moreover have "snd (mem_batch [q] [] c) = snd (mem_stmt q [] c)" for q
    by (simp split: prod.splits option.splits)
  ultimately show ?thesis
    using mem_stmt_release_rows [of "Sprintf_txn_d k" "[]" c] by simp
qed

lemma mem_Exec_delete:
  "mem_Exec (delete_text ''schema_migrations'') [] c = (None, c\<lparr>rows := []\<rparr>)"
  by (simp add: mem_Exec_def delete_text_def mem_stmt_def)

lemma mem_Exec_insert:
  "mem_Exec (insert_text ''schema_migrations'') [IntArg v, BoolArg d] c = (None, c')
     \<Longrightarrow> rows c' = rows c @ [(v, d)]"
  by (auto simp: mem_Exec_def insert_text_def mem_stmt_def split: if_splits)

lemma mem_bookkeeping: "bookkeeping_engine mem_engine rows ''schema_migrations''"
  unfolding bookkeeping_engine_def
proof (intro conjI allI impI)
  fix c c' :: mem
  assume "Exec mem_engine (delete_text ''schema_migrations'') [] c = (None, c')"
  then show "rows c' = []"
    by (auto simp: mem_engine_def mem_Exec_delete)
next
  fix v d and c c' :: mem
  assume "Exec mem_engine (insert_text ''schema_migrations'') [IntArg v, BoolArg d] c = (None, c')"
  then show "rows c' = rows c @ [(v, d)]"
    by (simp add: mem_engine_def mem_Exec_insert)
next
  fix k and c :: mem
  show "rows (snd (Exec mem_engine (''RELEASE '' @ Sprintf_txn_d k) [] c)) = rows c"
    using mem_Exec_release_rows [of k c] by (simp add: mem_engine_def)
next
  fix c :: mem
  show "fst (QueryRowScan mem_engine (select_query ''schema_migrations'') c) =
          (case rows c of [] \<Rightarrow> Inl ErrNoRows | r # rs \<Rightarrow> Inr r)"
    by (simp add: mem_engine_def mem_QueryRowScan_def split: list.splits)
qed

lemma held_table: "migrationsTable held = ''schema_migrations''"
  by (simp add: run_defs)

lemma at5_ok: "SetVersion mem_engine 5 True held = (None, at5)"
  by (simp add: at5_def run_defs Sprintf_txn_d_def digits.simps)

lemma at5_table: "migrationsTable at5 = ''schema_migrations''"
  by (simp add: at5_def run_defs Sprintf_txn_d_def digits.simps)

lemma at_nil_ok: "SetVersion mem_engine (- 1) True at5 = (None, at_nil)"
  by (simp add: at_nil_def at5_def run_defs Sprintf_txn_d_def digits.simps)

subsection \<open>The lock\<close>

text \<open>
  C8. A second \<open>Lock\<close> on the same driver, with no \<open>Unlock\<close> in between, returns
  \<open>ErrLocked\<close> and leaves the driver as it was, the history of issued statements
  included, so no statement reaches the database; this holds whenever the flag is set,
  and the flag is set after every first \<open>Lock\<close>. \<open>Unlock\<close> on a driver whose flag is not
  set returns \<open>nil\<close> and leaves the driver as it was.
\<close>

theorem Lock_twice_Unlock_unlocked:
  "(locked s \<longrightarrow> Lock E s = (Some ErrLocked, s)) \<and>
   Lock E (snd (Lock E s)) = (Some ErrLocked, snd (Lock E s)) \<and>
   issued (db (snd (Lock E (snd (Lock E s))))) = issued (db (snd (Lock E s))) \<and>
   (\<not> locked s \<longrightarrow> Unlock E s = (None, s))"
proof -
  have a: "Lock E t = (Some ErrLocked, t)" if "locked t" for t
    using that by (simp add: Lock_def)
  have b: "Lock E (snd (Lock E s)) = (Some ErrLocked, snd (Lock E s))"
    by (rule a) (rule Lock_sets_locked)
  have c: "Unlock E s = (None, s)" if "\<not> locked s"
    using that by (simp add: Unlock_def)
  from a b c show ?thesis by simp
qed

theorem Lock_twice_witness:
  "\<not> locked fresh \<and> Unlock mem_engine fresh = (None, fresh) \<and>
   locked held \<and> Lock mem_engine held = (Some ErrLocked, held) \<and>
   Lock mem_engine (snd (Lock mem_engine fresh)) = (Some ErrLocked, snd (Lock mem_engine fresh))"
proof -
  have a: "\<not> locked fresh" by (simp add: run_defs)
  have b: "locked held" by (simp add: run_defs)
  from Lock_twice_Unlock_unlocked [of fresh mem_engine] Lock_twice_Unlock_unlocked [of held mem_engine] a b
  show ?thesis by simp
qed

text \<open>
  C2. When \<open>BEGIN EXCLUSIVE\<close> fails because another connection holds the database,
  \<open>Lock\<close> returns that error, no transaction is open, and yet the flag is set: the next
  \<open>Lock\<close> answers \<open>ErrLocked\<close>.
\<close>

theorem Lock_failure_sets_flag:
  "\<not> locked contended \<and>
   fst (Lock mem_engine contended) =
     Some (DatabaseError (External ''database is locked'') ''BEGIN EXCLUSIVE'') \<and>
   \<not> in_tx (conn (db (snd (Lock mem_engine contended)))) \<and>
   locked (snd (Lock mem_engine contended)) \<and>
   fst (Lock mem_engine (snd (Lock mem_engine contended))) = Some ErrLocked"
  by (simp add: run_defs)

text \<open>
  C3. On a fresh driver \<open>Lock\<close> succeeds, \<open>Unlock\<close> succeeds and its \<open>COMMIT\<close> ends the
  transaction, but the flag stays set and a further \<open>Lock\<close> answers \<open>ErrLocked\<close> without
  issuing a statement.
\<close>

theorem Unlock_keeps_flag:
  "fst (Lock mem_engine fresh) = None \<and>
   in_tx (conn (db held)) \<and>
   fst (Unlock mem_engine held) = None \<and>
   \<not> in_tx (conn (db (snd (Unlock mem_engine held)))) \<and>
   locked (snd (Unlock mem_engine held)) \<and>
   Lock mem_engine (snd (Unlock mem_engine held)) =
     (Some ErrLocked, snd (Unlock mem_engine held))"
  by (simp add: run_defs)

subsection \<open>Run\<close>

text \<open>
  C1, as stated, fails. On the reference engine, inside the lock, a script whose first
  statement is valid and whose second is rejected makes \<open>Run\<close> fail, and the table the
  first statement created is still there; the only statement \<open>Run\<close> issued is the script
  itself, with no savepoint around it. Run through \<open>transactionally\<close>, as the
  specification words it, the same script leaves no table.
\<close>

theorem Run_keeps_partial_effects:
  "fst (Run mem_engine (Inr two_statements) held) =
     Some (DatabaseError (External ''syntax error'') two_statements) \<and>
   tables (conn (db held)) = [] \<and>
   tables (conn (db (snd (Run mem_engine (Inr two_statements) held)))) = [''t(x int)''] \<and>
   issued (db (snd (Run mem_engine (Inr two_statements) held))) =
     issued (db held) @ [(two_statements, [])] \<and>
   tables (conn (db (snd (Run_via_savepoint mem_engine (Inr two_statements) held)))) = []"
  by (simp add: Run_via_savepoint_def two_statements_def run_defs Sprintf_txn_d_def digits_1)

text \<open>
  C1, amended. \<open>Run\<close> hands the script, after the placeholder substitution of \<open>exec\<close>, to
  the engine in one \<open>Exec\<close> call and issues nothing else: no \<open>SAVEPOINT\<close>, \<open>ROLLBACK TO\<close>
  or \<open>RELEASE\<close>, and the savepoint counter is not advanced. Its result is the engine's
  error wrapped with the executed text, and the database afterwards is what that one
  call left. When the reader fails, \<open>Run\<close> returns the reader's error and issues nothing.
\<close>

theorem Run_single_exec:
  "fst (Run E (Inr script) s) =
     map_option (\<lambda>e. DatabaseError e (strings_Replace script placeholder (migrationsTable s)))
       (fst (Exec E (strings_Replace script placeholder (migrationsTable s)) [] (conn (db s)))) \<and>
   conn (db (snd (Run E (Inr script) s))) =
     snd (Exec E (strings_Replace script placeholder (migrationsTable s)) [] (conn (db s))) \<and>
   length (issued (db (snd (Run E (Inr script) s)))) = Suc (length (issued (db s))) \<and>
   txid (snd (Run E (Inr script) s)) = txid s \<and>
   Run E (Inl err) s = (Some err, s)"
  by (simp add: Run_def exec_result exec_conn exec_issued)

text \<open>
  C4, as stated, fails: a script that contains the placeholder token reaches the engine
  with the token replaced by the table name.
\<close>

theorem Run_substitutes_in_script:
  "migrationsTable fresh = ''schema_migrations'' \<and>
   issued (db (snd (Run mem_engine (Inr templated) fresh))) = [(''DROP TABLE schema_migrations'', [])] \<and>
   ''DROP TABLE schema_migrations'' \<noteq> templated"
  by (simp add: templated_def run_defs)

text \<open>
  C4, amended. \<open>Run\<close> executes the script through \<open>exec\<close>, as the driver's own statements
  are: the text handed to the engine is the script with every occurrence of the
  placeholder token replaced by the table name. It is the script itself whenever the
  token does not occur in the script.
\<close>

theorem Run_hands_replaced_script:
  "issued (db (snd (Run E (Inr script) s))) =
     issued (db s) @ [(strings_Replace script placeholder (migrationsTable s), [])] \<and>
   (\<not> sublist placeholder script \<longrightarrow>
      issued (db (snd (Run E (Inr script) s))) = issued (db s) @ [(script, [])])"
  by (simp add: Run_def exec_issued strings_Replace_absent)

theorem Run_hands_replaced_script_witness:
  "\<not> sublist placeholder ''CREATE TABLE t(x int)'' \<and>
   issued (db (snd (Run mem_engine (Inr ''CREATE TABLE t(x int)'') fresh))) =
     issued (db fresh) @ [(''CREATE TABLE t(x int)'', [])]"
proof -
  have a: "\<not> sublist placeholder ''CREATE TABLE t(x int)''"
    by (simp add: placeholder_def sublist_Cons_right)
  from Run_hands_replaced_script [of mem_engine "''CREATE TABLE t(x int)''" fresh] a
  show ?thesis by blast
qed

subsection \<open>The bookkeeping table\<close>

text \<open>
  C5. On an engine that meets the expectations above, a successful
  \<open>SetVersion(version, dirty)\<close> issues, inside its savepoint, the \<open>DELETE\<close> and then the
  \<open>INSERT\<close> of \<open>(version, dirty)\<close> exactly when \<open>version >= 0\<close>; afterwards the table holds
  the one row \<open>(version, dirty)\<close> when \<open>version >= 0\<close> and no row otherwise, so at most one
  row.
\<close>

theorem SetVersion_rows:
  assumes "bookkeeping_engine E rowsf (migrationsTable s)"
      and "SetVersion E version dirty s = (None, s')"
  shows "rowsf (conn (db s')) = (if 0 \<le> sint version then [(version, dirty)] else []) \<and>
         length (rowsf (conn (db s'))) \<le> 1 \<and>
         issued (db s') =
           issued (db s)
           @ [(''SAVEPOINT '' @ Sprintf_txn_d (txid s + 1), []),
              (delete_text (migrationsTable s), [])]
           @ (if 0 \<le> sint version
              then [(insert_text (migrationsTable s), [IntArg version, BoolArg dirty])] else [])
           @ [(''RELEASE '' @ Sprintf_txn_d (txid s + 1), [])]"
proof -
  note e = SetVersion_effect [OF assms]
  have "length (rowsf (conn (db s'))) \<le> 1"
    unfolding e [THEN conjunct1] by simp
  with e show ?thesis by blast
qed

theorem SetVersion_rows_witness:
  "bookkeeping_engine mem_engine rows (migrationsTable held) \<and>
   SetVersion mem_engine 5 True held = (None, at5) \<and>
   rows (conn (db at5)) = [(5, True)] \<and>
   bookkeeping_engine mem_engine rows (migrationsTable at5) \<and>
   SetVersion mem_engine (- 1) True at5 = (None, at_nil) \<and>
   rows (conn (db at_nil)) = []"
proof -
  have e1: "bookkeeping_engine mem_engine rows (migrationsTable held)"
    unfolding held_table by (rule mem_bookkeeping)
  have e2: "bookkeeping_engine mem_engine rows (migrationsTable at5)"
    unfolding at5_table by (rule mem_bookkeeping)
  have r1: "rows (conn (db at5)) = [(5, True)]"
    using SetVersion_rows [OF e1 at5_ok] by simp
  have r2: "rows (conn (db at_nil)) = []"
    using SetVersion_rows [OF e2 at_nil_ok] by simp
  show ?thesis by (intro conjI e1 at5_ok r1 e2 at_nil_ok r2)
qed

text \<open>
  C6. On an engine that meets the expectations above, \<open>Version\<close> after a successful
  \<open>SetVersion(version, dirty)\<close> returns \<open>(version, dirty, nil)\<close> when \<open>version >= 0\<close> and
  \<open>(-1, false, nil)\<close> when \<open>version\<close> is negative, \<open>-1\<close> in particular; and \<open>Version\<close> on an
  empty table returns \<open>(-1, false, nil)\<close>.
\<close>

theorem Version_roundtrip:
  assumes eng: "bookkeeping_engine E rowsf (migrationsTable s)"
  shows "(SetVersion E version dirty s = (None, s') \<and> 0 \<le> sint version
            \<longrightarrow> fst (Version E s') = (version, dirty, None)) \<and>
         (SetVersion E version dirty s = (None, s') \<and> sint version < 0
            \<longrightarrow> fst (Version E s') = (- 1, False, None)) \<and>
         (rowsf (conn (db s)) = [] \<longrightarrow> fst (Version E s) = (- 1, False, None))"
proof (intro conjI impI)
  assume a: "SetVersion E version dirty s = (None, s') \<and> 0 \<le> sint version"
  then have ok: "SetVersion E version dirty s = (None, s')" and nn: "0 \<le> sint version"
    by simp_all
  note e = SetVersion_effect [OF eng ok]
  from e have eng': "bookkeeping_engine E rowsf (migrationsTable s')" using eng by simp
  from e nn have "rowsf (conn (db s')) = [(version, dirty)]" by simp
  then show "fst (Version E s') = (version, dirty, None)"
    unfolding Version_rows [OF eng'] by simp
next
  assume a: "SetVersion E version dirty s = (None, s') \<and> sint version < 0"
  then have ok: "SetVersion E version dirty s = (None, s')" and neg: "\<not> 0 \<le> sint version"
    by simp_all
  note e = SetVersion_effect [OF eng ok]
  from e have eng': "bookkeeping_engine E rowsf (migrationsTable s')" using eng by simp
  from e neg have "rowsf (conn (db s')) = []" by simp
  then show "fst (Version E s') = (- 1, False, None)"
    unfolding Version_rows [OF eng'] by (simp add: NilVersion_def)
next
  assume "rowsf (conn (db s)) = []"
  then show "fst (Version E s) = (- 1, False, None)"
    unfolding Version_rows [OF eng] by (simp add: NilVersion_def)
qed

theorem Version_roundtrip_witness:
  "bookkeeping_engine mem_engine rows (migrationsTable held) \<and>
   SetVersion mem_engine 5 True held = (None, at5) \<and> 0 \<le> sint (5 :: 64 word) \<and>
   fst (Version mem_engine at5) = (5, True, None) \<and>
   bookkeeping_engine mem_engine rows (migrationsTable at5) \<and>
   SetVersion mem_engine (- 1) True at5 = (None, at_nil) \<and> sint (- 1 :: 64 word) < 0 \<and>
   fst (Version mem_engine at_nil) = (- 1, False, None) \<and>
   rows (conn (db held)) = [] \<and>
   fst (Version mem_engine held) = (- 1, False, None)"
proof -
  have e1: "bookkeeping_engine mem_engine rows (migrationsTable held)"
    unfolding held_table by (rule mem_bookkeeping)
  have e2: "bookkeeping_engine mem_engine rows (migrationsTable at5)"
    unfolding at5_table by (rule mem_bookkeeping)
  have p: "0 \<le> sint (5 :: 64 word)" by simp
  have n: "sint (- 1 :: 64 word) < 0" by simp
  have h: "rows (conn (db held)) = []" by (simp add: run_defs)
  have v1: "fst (Version mem_engine at5) = (5, True, None)"
    using Version_roundtrip [OF e1, of 5 True at5] at5_ok p by blast
  have v2: "fst (Version mem_engine at_nil) = (- 1, False, None)"
    using Version_roundtrip [OF e2, of "- 1" True at_nil] at_nil_ok n by blast
  have v3: "fst (Version mem_engine held) = (- 1, False, None)"
    using Version_roundtrip [OF e1, of 5 True at5] h by blast
  show ?thesis by (intro conjI e1 at5_ok p v1 e2 at_nil_ok n v2 h v3)
qed

subsection \<open>Savepoints\<close>

text \<open>
  C7. When the savepoint was made and the action fails with \<open>e\<close>, \<open>transactionally\<close>
  returns \<open>e\<close>, and the last statement it issues is \<open>ROLLBACK TO\<close> with the name the
  \<open>SAVEPOINT\<close> statement carried. Nothing is assumed of what the rollback statement
  returns: its error, if any, is dropped.
\<close>

theorem transactionally_failure:
  assumes sp: "exec E (''SAVEPOINT '' @ Sprintf_txn_d (txid s + 1)) [] (s\<lparr>txid := txid s + 1\<rparr>)
                 = (None, s1)"
      and th: "thunk s1 = (Some e, s2)"
  shows "fst (transactionally E thunk s) = Some e \<and>
         snd (transactionally E thunk s) =
           snd (exec E (''ROLLBACK TO '' @ Sprintf_txn_d (txid s + 1)) [] s2) \<and>
         issued (db s1) = issued (db s) @ [(''SAVEPOINT '' @ Sprintf_txn_d (txid s + 1), [])] \<and>
         issued (db (snd (transactionally E thunk s))) =
           issued (db s2) @ [(''ROLLBACK TO '' @ Sprintf_txn_d (txid s + 1), [])]"
proof -
  let ?n = "Sprintf_txn_d (txid s + 1)"
  have r: "transactionally E thunk s = (Some e, snd (exec E (''ROLLBACK TO '' @ ?n) [] s2))"
    using sp th by (simp add: transactionally_def deferred_def Let_def)
  have i1: "issued (db s1) = issued (db s) @ [(''SAVEPOINT '' @ ?n, [])]"
    using exec_txn_issued(1) [of E "txid s + 1" "s\<lparr>txid := txid s + 1\<rparr>"]
    unfolding sp by simp
  have i2: "issued (db (snd (exec E (''ROLLBACK TO '' @ ?n) [] s2))) =
              issued (db s2) @ [(''ROLLBACK TO '' @ ?n, [])]"
    by (rule exec_txn_issued(2))
  from r i1 i2 show ?thesis by simp
qed

theorem transactionally_failure_witness:
  "exec mem_engine (''SAVEPOINT '' @ Sprintf_txn_d (txid held + 1)) []
     (held\<lparr>txid := txid held + 1\<rparr>) = (None, saved) \<and>
   release_then_fail saved =
     (Some (DatabaseError (External ''syntax error'') ''BOGUS''), snd (release_then_fail saved)) \<and>
   fst (exec mem_engine ''ROLLBACK TO txn_1'' [] (snd (release_then_fail saved))) =
     Some (DatabaseError (External ''no such savepoint'') ''ROLLBACK TO txn_1'') \<and>
   fst (transactionally mem_engine release_then_fail held) =
     Some (DatabaseError (External ''syntax error'') ''BOGUS'') \<and>
   issued (db (snd (transactionally mem_engine release_then_fail held))) =
     issued (db (snd (release_then_fail saved))) @ [(''ROLLBACK TO txn_1'', [])]"
proof -
  have h2: "release_then_fail saved =
     (Some (DatabaseError (External ''syntax error'') ''BOGUS''), snd (release_then_fail saved))"
    by (simp add: run_defs)
  have h3: "fst (exec mem_engine ''ROLLBACK TO txn_1'' [] (snd (release_then_fail saved))) =
     Some (DatabaseError (External ''no such savepoint'') ''ROLLBACK TO txn_1'')"
    by (simp add: run_defs)
  note w = transactionally_failure [where thunk = release_then_fail, OF held_savepoint h2]
  have c: "fst (transactionally mem_engine release_then_fail held) =
     Some (DatabaseError (External ''syntax error'') ''BOGUS'')"
    using w by (rule conjunct1)
  have i: "issued (db (snd (transactionally mem_engine release_then_fail held))) =
     issued (db (snd (release_then_fail saved))) @ [(''ROLLBACK TO txn_1'', [])]"
    using w [THEN conjunct2, THEN conjunct2, THEN conjunct2] unfolding held_txid
    by (simp add: txn_1)
  show ?thesis by (intro conjI held_savepoint h2 h3 c i)
qed

text \<open>
  C9. When the savepoint was made and the action succeeds, \<open>transactionally\<close> returns
  \<open>nil\<close>; its last statement is \<open>RELEASE\<close> of the savepoint, no rollback follows, and
  nothing is assumed of what the release returns: its error, if any, is dropped.
\<close>

theorem transactionally_release_ignored:
  assumes sp: "exec E (''SAVEPOINT '' @ Sprintf_txn_d (txid s + 1)) [] (s\<lparr>txid := txid s + 1\<rparr>)
                 = (None, s1)"
      and th: "thunk s1 = (None, s2)"
  shows "fst (transactionally E thunk s) = None \<and>
         snd (transactionally E thunk s) =
           snd (exec E (''RELEASE '' @ Sprintf_txn_d (txid s + 1)) [] s2) \<and>
         issued (db (snd (transactionally E thunk s))) =
           issued (db s2) @ [(''RELEASE '' @ Sprintf_txn_d (txid s + 1), [])]"
proof -
  let ?n = "Sprintf_txn_d (txid s + 1)"
  have r: "transactionally E thunk s = (None, snd (exec E (''RELEASE '' @ ?n) [] s2))"
    using sp th by (simp add: transactionally_def deferred_def Let_def)
  have i2: "issued (db (snd (exec E (''RELEASE '' @ ?n) [] s2))) =
              issued (db s2) @ [(''RELEASE '' @ ?n, [])]"
    by (rule exec_txn_issued(3))
  from r i2 show ?thesis by simp
qed

theorem transactionally_release_ignored_witness:
  "exec mem_engine (''SAVEPOINT '' @ Sprintf_txn_d (txid held + 1)) []
     (held\<lparr>txid := txid held + 1\<rparr>) = (None, saved) \<and>
   release_early saved = (None, snd (release_early saved)) \<and>
   fst (exec mem_engine ''RELEASE txn_1'' [] (snd (release_early saved))) =
     Some (DatabaseError (External ''no such savepoint'') ''RELEASE txn_1'') \<and>
   fst (transactionally mem_engine release_early held) = None \<and>
   issued (db (snd (transactionally mem_engine release_early held))) =
     issued (db (snd (release_early saved))) @ [(''RELEASE txn_1'', [])]"
proof -
  have h2: "release_early saved = (None, snd (release_early saved))"
    by (simp add: run_defs)
  have h3: "fst (exec mem_engine ''RELEASE txn_1'' [] (snd (release_early saved))) =
     Some (DatabaseError (External ''no such savepoint'') ''RELEASE txn_1'')"
    by (simp add: run_defs)
  note w = transactionally_release_ignored [where thunk = release_early, OF held_savepoint h2]
  have c: "fst (transactionally mem_engine release_early held) = None"
    using w by (rule conjunct1)
  have i: "issued (db (snd (transactionally mem_engine release_early held))) =
     issued (db (snd (release_early saved))) @ [(''RELEASE txn_1'', [])]"
    using w [THEN conjunct2, THEN conjunct2] unfolding held_txid
    by (simp add: txn_1)
  show ?thesis by (intro conjI held_savepoint h2 h3 c i)
qed

subsection \<open>Drop\<close>

text \<open>
  C10. \<open>Drop\<close> returns what \<open>os.Remove\<close> returns for the stored path, the file system is
  what that call left, and the driver is unchanged, whether or not the removal
  succeeded: the handle, the lock flag, the table name, the savepoint counter and the
  path are as before.
\<close>

theorem Drop_frame:
  "fst (Drop rm s fs) = fst (rm (dbPath s) fs) \<and>
   snd (snd (Drop rm s fs)) = snd (rm (dbPath s) fs) \<and>
   fst (snd (Drop rm s fs)) = s \<and>
   db (fst (snd (Drop rm s fs))) = db s \<and>
   locked (fst (snd (Drop rm s fs))) = locked s \<and>
   migrationsTable (fst (snd (Drop rm s fs))) = migrationsTable s \<and>
   txid (fst (snd (Drop rm s fs))) = txid s \<and>
   dbPath (fst (snd (Drop rm s fs))) = dbPath s"
  by (simp add: Drop_def split: prod.splits)

end
